theory Spec2Isabelle
  imports Main "HOL-Library.Word"
begin

section \<open>SystemTemplateHook: per-instance system template override\<close>

text \<open>
  A shallow embedding of \<^verbatim>\<open>sweagent/agent/hooks/system_template_hook.py\<close>: the class
  \<^verbatim>\<open>SystemTemplateHook\<close> with its constructor, \<^verbatim>\<open>on_init\<close>,
  \<^verbatim>\<open>_extract_system_template\<close> and \<^verbatim>\<open>on_model_query\<close>.
  Exceptions are values of a sum type, the mutable objects (the hook, the agent, the logging
  channel) are fields of an explicit state that every method takes and returns, and the two
  \<^verbatim>\<open>for\<close> loops of the extraction are structural recursions over the path lists.
\<close>

subsection \<open>Python strings\<close>

text \<open>
  A Python \<^verbatim>\<open>str\<close> is a sequence of Unicode code points, so it is a list of
  natural numbers here: \<^verbatim>\<open>len\<close> is \<open>length\<close>. The literals of the source are ASCII
  and are written through \<open>str\<close>.
\<close>

type_synonym pystr = "nat list"

definition str :: "string \<Rightarrow> pystr" where
  "str s = map of_char s"

text \<open>
  \<^verbatim>\<open>str.isspace\<close> on one code point: the white space table of CPython
  (\<^verbatim>\<open>_PyUnicode_IsWhitespace\<close>).
\<close>

definition isspace :: "nat \<Rightarrow> bool" where
  "isspace c \<longleftrightarrow>
     (9 \<le> c \<and> c \<le> 13) \<or> (28 \<le> c \<and> c \<le> 32) \<or> c = 133 \<or> c = 160 \<or> c = 5760 \<or>
     (8192 \<le> c \<and> c \<le> 8202) \<or> c = 8232 \<or> c = 8233 \<or> c = 8239 \<or> c = 8287 \<or> c = 12288"

text \<open>\<^verbatim>\<open>s.strip()\<close>: drop the leading and the trailing white space.\<close>

definition strip :: "pystr \<Rightarrow> pystr" where
  "strip s = rev (dropWhile isspace (rev (dropWhile isspace s)))"

subsection \<open>Parsed documents\<close>

text \<open>
  What \<^verbatim>\<open>yaml.safe_load\<close> can return: \<^verbatim>\<open>None\<close>, a scalar, a list, a set or a
  \<^verbatim>\<open>dict\<close>. A \<^verbatim>\<open>dict\<close> is the list of its items (its keys are pairwise different);
  keys are arbitrary values, as YAML allows. A float is its IEEE 754 bit pattern and a
  timestamp its ordinal; the hook never looks inside either. The same values stand for what
  the template attribute of the agent holds.
\<close>

datatype yaml =
    YNone
  | YBool bool
  | YInt int
  | YFloat "64 word"
  | YStr pystr
  | YBytes "8 word list"
  | YTimestamp int
  | YSeq "yaml list"
  | YSet "yaml list"
  | YMap "(yaml \<times> yaml) list"

subsection \<open>Exceptions\<close>

text \<open>
  The exception classes that the modelled operations raise. All of them derive from
  \<^verbatim>\<open>Exception\<close>. \<open>Inl\<close> of a result is a raised exception, \<open>Inr\<close> a normal return.
\<close>

datatype exn = KeyError | TypeError | OSError | UnicodeDecodeError | YAMLError

text \<open>
  \<^verbatim>\<open>current[key]\<close> with a \<^verbatim>\<open>str\<close> key: a \<^verbatim>\<open>dict\<close> looks the key up and raises
  \<^verbatim>\<open>KeyError\<close> when it is absent; every other value raises \<^verbatim>\<open>TypeError\<close> (it is
  not subscriptable, or its indices must be integers).
\<close>

fun getitem :: "yaml \<Rightarrow> pystr \<Rightarrow> exn + yaml" where
  "getitem (YMap items) key =
     (case map_of items (YStr key) of None \<Rightarrow> Inl KeyError | Some v \<Rightarrow> Inr v)"
| "getitem _ key = Inl TypeError"

text \<open>
  \<^verbatim>\<open>len(v)\<close>: the sized values answer with their number of elements, every other value
  raises \<^verbatim>\<open>TypeError\<close> (it has no \<^verbatim>\<open>len()\<close>).
\<close>

fun len :: "yaml \<Rightarrow> exn + nat" where
  "len (YStr s) = Inr (length s)"
| "len (YBytes b) = Inr (length b)"
| "len (YSeq vs) = Inr (length vs)"
| "len (YSet vs) = Inr (length vs)"
| "len (YMap items) = Inr (length items)"
| "len _ = Inl TypeError"

subsection \<open>The file system\<close>

text \<open>
  \<^verbatim>\<open>self.instance_templates_dir / f"{self.instance_id}.yaml"\<close> is the pair of the directory
  and the file name. A file system says, for each path, what the operations of the hook on
  it give. A path without an entry names no file: \<^verbatim>\<open>os.stat\<close> fails with one of the
  errors that \<^verbatim>\<open>Path.exists\<close> swallows (\<^verbatim>\<open>ENOENT\<close>, \<^verbatim>\<open>ENOTDIR\<close>, \<^verbatim>\<open>EBADF\<close>,
  \<^verbatim>\<open>ELOOP\<close>). \<open>StatFails\<close> is a path on which \<^verbatim>\<open>os.stat\<close> fails with any other
  \<^verbatim>\<open>OSError\<close> (a name that is too long, a directory that may not be searched), which
  \<^verbatim>\<open>Path.exists\<close> raises again. \<open>Loads\<close> and \<open>Fails\<close> are an existing file with what
  opening it and running \<^verbatim>\<open>yaml.safe_load\<close> on it gives: the parsed document, or the
  exception raised by \<^verbatim>\<open>open\<close>, by the decoder or by the parser.
\<close>

type_synonym path = "pystr \<times> pystr"

datatype entry = Loads yaml | Fails exn | StatFails

type_synonym filesystem = "path \<rightharpoonup> entry"

text \<open>\<^verbatim>\<open>Path.exists\<close>: an answer, or the \<^verbatim>\<open>OSError\<close> that it does not swallow.\<close>

definition exists :: "filesystem \<Rightarrow> path \<Rightarrow> exn + bool" where
  "exists fs p =
     (case fs p of
        None \<Rightarrow> Inr False
      | Some StatFails \<Rightarrow> Inl OSError
      | Some (Fails e) \<Rightarrow> Inr True
      | Some (Loads doc) \<Rightarrow> Inr True)"

definition open_safe_load :: "filesystem \<Rightarrow> path \<Rightarrow> exn + yaml" where
  "open_safe_load fs p =
     (case fs p of
        None \<Rightarrow> Inl OSError
      | Some StatFails \<Rightarrow> Inl OSError
      | Some (Fails e) \<Rightarrow> Inl e
      | Some (Loads doc) \<Rightarrow> Inr doc)"

subsection \<open>The hook, the agent and the logging channel\<close>

text \<open>The fields that \<^verbatim>\<open>__init__\<close> sets; \<^verbatim>\<open>self.logger\<close> is the channel \<open>logged\<close> below.\<close>

record hook_obj =
  instance_id :: pystr
  instance_templates_dir :: pystr
  template_loaded :: bool

text \<open>
  Modelled from the spec: the agent class is not part of the source file. The host contract
  is an object that may or may not have an attribute \<^verbatim>\<open>templates\<close>, which in turn may or
  may not have an attribute \<^verbatim>\<open>system_template\<close>, a settable holder. \<open>None\<close> is an
  absent attribute, so \<^verbatim>\<open>hasattr\<close> is a test against \<open>None\<close>. The contract asks for a
  string in the holder, but \<^verbatim>\<open>hasattr\<close> does not look at the value, so the holder may
  hold any value (\<^verbatim>\<open>None\<close> for a template that was never set, for one).
\<close>

record templates_obj =
  system_template :: "yaml option"

record agent_obj =
  templates :: "templates_obj option"

datatype level = DEBUG | INFO | WARNING | ERROR

text \<open>One constructor for each log line of the source, with the values it formats.\<close>

datatype message =
    NoTemplateFile pystr path
  | LoadingTemplate pystr path
  | TemplateApplied pystr
  | TemplateLengths nat nat
  | NoTemplatesAttribute
  | NoValidTemplate path
  | LoadFailed pystr exn
  | FoundAtPath "pystr list"
  | NotFoundAtAnyPath
  | UsingCustomTemplate pystr

text \<open>
  The state that the callbacks act on: the hook \<open>self\<close>, the agent it is attached to, the
  lines sent to the logger, and the history of the values assigned to
  \<^verbatim>\<open>agent.templates.system_template\<close> (one entry for each executed assignment).
\<close>

record world =
  self :: hook_obj
  agent :: agent_obj
  logged :: "(level \<times> message) list"
  writes :: "pystr list"

definition emit :: "level \<Rightarrow> message \<Rightarrow> world \<Rightarrow> world" where
  "emit l m w = w\<lparr>logged := logged w @ [(l, m)]\<rparr>"

text \<open>\<^verbatim>\<open>__init__\<close>: stores its arguments, does not touch the file system.\<close>

definition init :: "pystr \<Rightarrow> pystr \<Rightarrow> hook_obj" where
  "init iid dir = \<lparr>instance_id = iid, instance_templates_dir = dir, template_loaded = False\<rparr>"

definition template_file :: "hook_obj \<Rightarrow> path" where
  "template_file h = (instance_templates_dir h, instance_id h @ str ''.yaml'')"

subsection \<open>Extraction\<close>

definition paths_to_try :: "pystr list list" where
  "paths_to_try =
     [[str ''agent'', str ''templates'', str ''system_template''],
      [str ''templates'', str ''system_template''],
      [str ''system_template''],
      [str ''agent'', str ''system_template'']]"

text \<open>The inner loop \<^verbatim>\<open>for key in path: current = current[key]\<close>.\<close>

fun descend :: "yaml \<Rightarrow> pystr list \<Rightarrow> exn + yaml" where
  "descend current [] = Inr current"
| "descend current (key # keys) =
     (case getitem current key of
        Inl e \<Rightarrow> Inl e
      | Inr v \<Rightarrow> descend v keys)"

text \<open>\<^verbatim>\<open>isinstance(current, str) and current.strip()\<close>.\<close>

fun usable :: "yaml \<Rightarrow> bool" where
  "usable (YStr s) = (strip s \<noteq> [])"
| "usable _ = False"

fun str_value :: "yaml \<Rightarrow> pystr" where
  "str_value (YStr s) = s"
| "str_value _ = []"

text \<open>
  The outer loop over the paths. The handler \<^verbatim>\<open>except (KeyError, TypeError): continue\<close>
  catches these two classes only; any other exception leaves the method.
\<close>

fun try_paths :: "yaml \<Rightarrow> pystr list list \<Rightarrow> world \<Rightarrow> (exn + pystr) \<times> world" where
  "try_paths config [] w = (Inr [], emit DEBUG NotFoundAtAnyPath w)"
| "try_paths config (p # ps) w =
     (case descend config p of
        Inl e \<Rightarrow>
          if e = KeyError \<or> e = TypeError then try_paths config ps w else (Inl e, w)
      | Inr current \<Rightarrow>
          if usable current
          then (Inr (strip (str_value current)), emit DEBUG (FoundAtPath p) w)
          else try_paths config ps w)"

definition extract_system_template :: "yaml \<Rightarrow> world \<Rightarrow> (exn + pystr) \<times> world" where
  "extract_system_template config w = try_paths config paths_to_try w"

subsection \<open>The callbacks\<close>

text \<open>
  The branch \<^verbatim>\<open>if system_template:\<close> of the \<^verbatim>\<open>try\<close> block: the test of the attribute
  path, then the read of the original value, the assignment, the flag and the two log lines,
  in the order of the source. \<^verbatim>\<open>len(original_template)\<close> is evaluated for the second log
  line, so after the assignment and the flag; when it raises, the state at that point is
  what the handler sees.
\<close>

definition apply_template :: "pystr \<Rightarrow> world \<Rightarrow> exn option \<times> world" where
  "apply_template st w =
     (case templates (agent w) of
        None \<Rightarrow> (None, emit WARNING NoTemplatesAttribute w)
      | Some t \<Rightarrow>
         (case system_template t of
            None \<Rightarrow> (None, emit WARNING NoTemplatesAttribute w)
          | Some original_template \<Rightarrow>
              (let w1 = emit INFO (TemplateApplied (instance_id (self w)))
                         (w\<lparr>agent := (agent w)\<lparr>templates :=
                                       Some (t\<lparr>system_template := Some (YStr st)\<rparr>)\<rparr>,
                            writes := writes w @ [st],
                            self := (self w)\<lparr>template_loaded := True\<rparr>\<rparr>)
               in case len original_template of
                    Inl e \<Rightarrow> (Some e, w1)
                  | Inr n \<Rightarrow> (None, emit DEBUG (TemplateLengths n (length st)) w1))))"

text \<open>
  The body of the \<^verbatim>\<open>try\<close> block of \<^verbatim>\<open>on_init\<close>: the exception it raises, if any, and
  the state at that point.
\<close>

definition on_init_try :: "filesystem \<Rightarrow> world \<Rightarrow> exn option \<times> world" where
  "on_init_try fs w =
     (let f = template_file (self w);
          w1 = emit INFO (LoadingTemplate (instance_id (self w)) f) w
      in case open_safe_load fs f of
           Inl e \<Rightarrow> (Some e, w1)
         | Inr template_config \<Rightarrow>
            (case extract_system_template template_config w1 of
               (Inl e, w2) \<Rightarrow> (Some e, w2)
             | (Inr st, w2) \<Rightarrow>
                 if st \<noteq> [] then apply_template st w2
                 else (None, emit WARNING (NoValidTemplate f) w2)))"

text \<open>
  \<^verbatim>\<open>on_init\<close>: the existence test, which stands before the \<^verbatim>\<open>try\<close> block, so that an
  exception of \<^verbatim>\<open>Path.exists\<close> leaves the method; then the \<^verbatim>\<open>try\<close> block under
  \<^verbatim>\<open>except Exception\<close>, which catches every exception of the model and logs it.
\<close>

definition on_init :: "filesystem \<Rightarrow> world \<Rightarrow> (exn + unit) \<times> world" where
  "on_init fs w =
     (let f = template_file (self w)
      in case exists fs f of
           Inl e \<Rightarrow> (Inl e, w)
         | Inr found \<Rightarrow>
             if \<not> found
             then (Inr (), emit INFO (NoTemplateFile (instance_id (self w)) f) w)
             else (case on_init_try fs w of
                     (None, w') \<Rightarrow> (Inr (), w')
                   | (Some e, w') \<Rightarrow>
                       (Inr (), emit ERROR (LoadFailed (instance_id (self w')) e) w')))"

definition on_model_query :: "'m list \<Rightarrow> pystr \<Rightarrow> world \<Rightarrow> (exn + unit) \<times> world" where
  "on_model_query messages iid w =
     (if template_loaded (self w) \<and> length messages = 1
      then (Inr (), emit INFO (UsingCustomTemplate (instance_id (self w))) w)
      else (Inr (), w))"

subsection \<open>Sequences of callback invocations\<close>

text \<open>
  The host calls the two callbacks in some order, each \<^verbatim>\<open>on_init\<close> against the file system
  of that moment. An exception that leaves a callback ends the sequence.
\<close>

datatype 'm call = OnInit filesystem | OnModelQuery "'m list" pystr

fun invoke :: "'m call \<Rightarrow> world \<Rightarrow> (exn + unit) \<times> world" where
  "invoke (OnInit fs) w = on_init fs w"
| "invoke (OnModelQuery messages iid) w = on_model_query messages iid w"

fun run :: "'m call list \<Rightarrow> world \<Rightarrow> (exn + unit) \<times> world" where
  "run [] w = (Inr (), w)"
| "run (c # cs) w =
     (case invoke c w of
        (Inl e, w') \<Rightarrow> (Inl e, w')
      | (Inr u, w') \<Rightarrow> run cs w')"


text \<open>How many of the calls of a sequence are \<^verbatim>\<open>on_init\<close> calls.\<close>

fun on_init_calls :: "'m call list \<Rightarrow> nat" where
  "on_init_calls [] = 0"
| "on_init_calls (OnInit fs # cs) = Suc (on_init_calls cs)"
| "on_init_calls (OnModelQuery messages iid # cs) = on_init_calls cs"

subsection \<open>A concrete scenario\<close>

text \<open>
  Instance \<^verbatim>\<open>task-42\<close> with an agent that holds a default template, and three documents:
  one with the template under \<^verbatim>\<open>templates\<close>, one that has padded templates at the second
  and at the third path, and one whose candidate values are all unusable. Beside them, an
  agent whose template attribute is present and holds \<^verbatim>\<open>None\<close>, and a hook whose instance
  id is 300 letters long, with a file system in which the name built from it is too long
  for \<^verbatim>\<open>os.stat\<close>.
\<close>

definition scenario_hook :: hook_obj where
  "scenario_hook = init (str ''task-42'') (str ''instance_templates'')"

definition scenario_agent :: agent_obj where
  "scenario_agent = \<lparr>templates = Some \<lparr>system_template = Some (YStr (str ''default''))\<rparr>\<rparr>"


definition long_id_hook :: hook_obj where
  "long_id_hook = init (replicate 300 (of_char CHR ''a'')) (str ''instance_templates'')"

definition long_id_fs :: filesystem where
  "long_id_fs = [template_file long_id_hook \<mapsto> StatFails]"

definition scenario_world :: world where
  "scenario_world = \<lparr>self = scenario_hook, agent = scenario_agent, logged = [], writes = []\<rparr>"

definition scenario_doc :: yaml where
  "scenario_doc =
     YMap [(YStr (str ''templates''),
            YMap [(YStr (str ''system_template''), YStr (str ''You are a careful reviewer.''))])]"

definition layered_doc :: yaml where
  "layered_doc =
     YMap [(YStr (str ''system_template''), YStr (str ''third'')),
           (YStr (str ''templates''),
            YMap [(YStr (str ''system_template''), YStr (str '' second  ''))]),
           (YStr (str ''agent''), YInt 7)]"

definition unusable_doc :: yaml where
  "unusable_doc =
     YMap [(YStr (str ''agent''),
            YMap [(YStr (str ''templates''), YMap [(YStr (str ''system_template''), YStr [])]),
                  (YStr (str ''system_template''), YInt 42)]),
           (YStr (str ''templates''), YMap [(YStr (str ''system_template''), YStr (str ''  ''))]),
           (YStr (str ''system_template''), YMap [(YStr (str ''text''), YStr (str ''nested''))])]"

definition fs_with :: "entry \<Rightarrow> filesystem" where
  "fs_with l = [template_file scenario_hook \<mapsto> l]"

section \<open>Properties\<close>

subsection \<open>Stripping\<close>

lemma strip_split: "\<exists>v. dropWhile isspace s = strip s @ v"
  unfolding strip_def
  by (metis rev_append rev_rev_ident takeWhile_dropWhile_id)

lemma strip_hd: "strip s \<noteq> [] \<Longrightarrow> \<not> isspace (hd (strip s))"
proof -
  assume ne: "strip s \<noteq> []"
  obtain v where v: "dropWhile isspace s = strip s @ v" using strip_split by blast
  with ne have "dropWhile isspace s \<noteq> []" by simp
  then have "\<not> isspace (hd (dropWhile isspace s))" by (rule hd_dropWhile)
  with v ne show ?thesis by simp
qed

lemma strip_last: "strip s \<noteq> [] \<Longrightarrow> \<not> isspace (last (strip s))"
proof -
  assume ne: "strip s \<noteq> []"
  let ?t = "dropWhile isspace (rev (dropWhile isspace s))"
  from ne have t: "?t \<noteq> []" by (simp add: strip_def)
  then have "\<not> isspace (hd ?t)" by (rule hd_dropWhile)
  with t show ?thesis by (simp add: strip_def last_rev)
qed

lemma dropWhile_self: "xs \<noteq> [] \<Longrightarrow> \<not> P (hd xs) \<Longrightarrow> dropWhile P xs = xs"
  by (cases xs) auto

lemma strip_fixed: "s \<noteq> [] \<Longrightarrow> \<not> isspace (hd s) \<Longrightarrow> \<not> isspace (last s) \<Longrightarrow> strip s = s"
  by (simp add: strip_def dropWhile_self hd_rev)

lemma strip_idem: "strip (strip s) = strip s"
proof (cases "strip s = []")
  case True
  have "strip [] = []" by (simp add: strip_def)
  with True show ?thesis by simp
next
  case False
  then show ?thesis by (simp add: strip_fixed strip_hd strip_last)
qed

subsection \<open>Extraction never raises\<close>

lemma getitem_exn: "getitem c k = Inl e \<Longrightarrow> e = KeyError \<or> e = TypeError"
  by (cases c) (auto split: option.splits)

lemma descend_exn: "descend c ks = Inl e \<Longrightarrow> e = KeyError \<or> e = TypeError"
  by (induction ks arbitrary: c) (auto split: sum.splits dest: getitem_exn)

lemma usable_iff: "usable v \<longleftrightarrow> (\<exists>s. v = YStr s \<and> strip s \<noteq> [])"
  by (cases v) auto

lemma try_paths_cases:
  "try_paths config ps w = (Inr [], emit DEBUG NotFoundAtAnyPath w) \<or>
   (\<exists>p s. p \<in> set ps \<and> descend config p = Inr (YStr s) \<and> strip s \<noteq> [] \<and>
      try_paths config ps w = (Inr (strip s), emit DEBUG (FoundAtPath p) w))"
proof (induction ps)
  case Nil
  show ?case by simp
next
  case (Cons p ps)
  show ?case
  proof (cases "descend config p")
    case (Inl e)
    then have "try_paths config (p # ps) w = try_paths config ps w"
      using descend_exn [OF Inl] by auto
    with Cons show ?thesis by auto
  next
    case (Inr current)
    show ?thesis
    proof (cases "usable current")
      case True
      then obtain s where "current = YStr s" "strip s \<noteq> []" by (auto simp: usable_iff)
      with Inr show ?thesis by auto
    next
      case False
      with Inr have "try_paths config (p # ps) w = try_paths config ps w" by simp
      with Cons show ?thesis by auto
    qed
  qed
qed

subsection \<open>The shapes of one \<^verbatim>\<open>on_init\<close> call\<close>

lemma emit_frame [simp]:
  "self (emit l m w) = self w" "agent (emit l m w) = agent w" "writes (emit l m w) = writes w"
  "logged (emit l m w) = logged w @ [(l, m)]"
  by (simp_all add: emit_def)

lemma try_paths_first:
  assumes "i < length ps" and "descend config (ps ! i) = Inr (YStr s)" and "strip s \<noteq> []"
    and "\<forall>j<i. \<forall>t. \<not> (descend config (ps ! j) = Inr (YStr t) \<and> strip t \<noteq> [])"
  shows "try_paths config ps w = (Inr (strip s), emit DEBUG (FoundAtPath (ps ! i)) w)"
  using assms
proof (induction ps arbitrary: i)
  case Nil
  then show ?case by simp
next
  case (Cons p ps)
  show ?case
  proof (cases i)
    case 0
    with Cons.prems show ?thesis by simp
  next
    case (Suc k)
    from Cons.prems(4) Suc have miss: "\<forall>t. \<not> (descend config p = Inr (YStr t) \<and> strip t \<noteq> [])"
      by auto
    have skip: "try_paths config (p # ps) w = try_paths config ps w"
    proof (cases "descend config p")
      case (Inl e)
      then show ?thesis using descend_exn [OF Inl] by auto
    next
      case (Inr current)
      with miss have "\<not> usable current" by (auto simp: usable_iff)
      with Inr show ?thesis by simp
    qed
    have "\<forall>j<k. \<forall>t. \<not> (descend config (ps ! j) = Inr (YStr t) \<and> strip t \<noteq> [])"
    proof (intro allI impI)
      fix j t assume "j < k"
      then have "Suc j < i" using Suc by simp
      with Cons.prems(4) have "\<not> (descend config ((p # ps) ! Suc j) = Inr (YStr t) \<and> strip t \<noteq> [])"
        by blast
      then show "\<not> (descend config (ps ! j) = Inr (YStr t) \<and> strip t \<noteq> [])" by simp
    qed
    with Cons.IH [of k] Cons.prems Suc skip show ?thesis by simp
  qed
qed

lemma try_paths_prefix:
  assumes "i < length ps" and "descend config (ps ! i) = Inr (YStr s)" and "strip s \<noteq> []"
    and "\<forall>j<i. \<forall>t. \<not> (descend config (ps ! j) = Inr (YStr t) \<and> strip t \<noteq> [])"
  shows "try_paths config (take (Suc i) ps @ rest) w =
    (Inr (strip s), emit DEBUG (FoundAtPath (ps ! i)) w)"
proof -
  have l: "i < length (take (Suc i) ps @ rest)" using assms(1) by simp
  have n: "\<And>j. j \<le> i \<Longrightarrow> (take (Suc i) ps @ rest) ! j = ps ! j"
    using assms(1) by (simp add: nth_append)
  from n [of i] assms(2) have d: "descend config ((take (Suc i) ps @ rest) ! i) = Inr (YStr s)"
    by simp
  have m: "\<forall>j<i. \<forall>t. \<not> (descend config ((take (Suc i) ps @ rest) ! j) = Inr (YStr t) \<and>
      strip t \<noteq> [])"
    using assms(4) n by simp
  from try_paths_first [OF l d assms(3) m, of w] n [of i] show ?thesis by simp
qed

lemma try_paths_skip:
  assumes "descend config p = Inr v" and "\<not> usable v"
  shows "try_paths config (p # ps) w = try_paths config ps w"
  using assms by simp

lemma try_paths_fst: "fst (try_paths doc ps w) = fst (try_paths doc ps w')"
  by (induction ps) (auto split: sum.splits)

lemma try_paths_frame:
  "self (snd (try_paths doc ps w)) = self w \<and> agent (snd (try_paths doc ps w)) = agent w \<and>
   writes (snd (try_paths doc ps w)) = writes w"
  by (induction ps) (auto split: sum.splits)

lemma try_paths_returns: "\<exists>st. fst (try_paths doc ps w) = Inr st"
  using try_paths_cases [of doc ps w] by auto

lemma on_init_stat_fails:
  "fs (template_file (self w)) = Some StatFails \<Longrightarrow> on_init fs w = (Inl OSError, w)"
  by (simp add: on_init_def exists_def)

lemma on_init_absent:
  "fs (template_file (self w)) = None \<Longrightarrow>
   on_init fs w = (Inr (), emit INFO (NoTemplateFile (instance_id (self w)) (template_file (self w))) w)"
  by (simp add: on_init_def exists_def)

lemma on_init_fails:
  "fs (template_file (self w)) = Some (Fails e) \<Longrightarrow>
   on_init fs w = (Inr (), emit ERROR (LoadFailed (instance_id (self w)) e)
     (emit INFO (LoadingTemplate (instance_id (self w)) (template_file (self w))) w))"
  by (simp add: on_init_def exists_def on_init_try_def open_safe_load_def)

lemma on_init_miss:
  assumes "fs (template_file (self w)) = Some (Loads doc)"
    and "try_paths doc paths_to_try
           (emit INFO (LoadingTemplate (instance_id (self w)) (template_file (self w))) w) =
         (Inr [], w2)"
  shows "on_init fs w = (Inr (), emit WARNING (NoValidTemplate (template_file (self w))) w2)"
  using assms
  by (simp add: on_init_def exists_def on_init_try_def open_safe_load_def
      extract_system_template_def)

lemma on_init_hit:
  assumes "fs (template_file (self w)) = Some (Loads doc)"
    and "try_paths doc paths_to_try
           (emit INFO (LoadingTemplate (instance_id (self w)) (template_file (self w))) w) =
         (Inr st, w2)"
    and "st \<noteq> []"
    and "apply_template st w2 = (r, w3)"
  shows "on_init fs w =
    (Inr (), case r of None \<Rightarrow> w3 | Some e \<Rightarrow> emit ERROR (LoadFailed (instance_id (self w3)) e) w3)"
  using assms
  by (simp add: on_init_def exists_def on_init_try_def open_safe_load_def
      extract_system_template_def split: option.splits)

lemma apply_template_absent:
  "templates (agent w) = None \<or> (\<exists>tc. templates (agent w) = Some tc \<and> system_template tc = None) \<Longrightarrow>
   apply_template st w = (None, emit WARNING NoTemplatesAttribute w)"
  by (auto simp: apply_template_def)

lemma apply_template_present:
  "templates (agent w) = Some tc \<Longrightarrow> system_template tc = Some old \<Longrightarrow>
   apply_template st w =
     ((case len old of Inl e \<Rightarrow> Some e | Inr n \<Rightarrow> None),
      w\<lparr>agent := (agent w)\<lparr>templates := Some (tc\<lparr>system_template := Some (YStr st)\<rparr>)\<rparr>,
        writes := writes w @ [st],
        self := (self w)\<lparr>template_loaded := True\<rparr>,
        logged := logged w @ (INFO, TemplateApplied (instance_id (self w))) #
          (case len old of Inl e \<Rightarrow> [] | Inr n \<Rightarrow> [(DEBUG, TemplateLengths n (length st))])\<rparr>)"
  by (simp add: apply_template_def emit_def Let_def split: sum.splits)

lemma on_init_first_hit:
  assumes f: "fs (template_file (self w)) = Some (Loads doc)"
    and i: "i < length paths_to_try"
    and d: "descend doc (paths_to_try ! i) = Inr (YStr s)"
    and ne: "strip s \<noteq> []"
    and m: "\<forall>j<i. \<forall>t. \<not> (descend doc (paths_to_try ! j) = Inr (YStr t) \<and> strip t \<noteq> [])"
    and tc: "templates (agent w) = Some tc"
    and old: "system_template tc = Some old"
  shows "on_init fs w =
    (Inr (), w\<lparr>agent := (agent w)\<lparr>templates := Some (tc\<lparr>system_template := Some (YStr (strip s))\<rparr>)\<rparr>,
               writes := writes w @ [strip s],
               self := (self w)\<lparr>template_loaded := True\<rparr>,
               logged := logged w @
                 [(INFO, LoadingTemplate (instance_id (self w)) (template_file (self w))),
                  (DEBUG, FoundAtPath (paths_to_try ! i)),
                  (INFO, TemplateApplied (instance_id (self w))),
                  (case len old of
                     Inl e \<Rightarrow> (ERROR, LoadFailed (instance_id (self w)) e)
                   | Inr n \<Rightarrow> (DEBUG, TemplateLengths n (length (strip s))))]\<rparr>)"
proof -
  let ?w1 = "emit INFO (LoadingTemplate (instance_id (self w)) (template_file (self w))) w"
  let ?w2 = "emit DEBUG (FoundAtPath (paths_to_try ! i)) ?w1"
  have t: "try_paths doc paths_to_try ?w1 = (Inr (strip s), ?w2)"
    by (rule try_paths_first [OF i d ne m])
  from tc have tc2: "templates (agent ?w2) = Some tc" by simp
  note a = apply_template_present [OF tc2 old, of "strip s"]
  note h = on_init_hit [where fs = fs and w = w, OF f t ne a]
  show ?thesis
  proof (cases "len old")
    case (Inl e)
    with h show ?thesis by (simp add: emit_def)
  next
    case (Inr n)
    with h show ?thesis by (simp add: emit_def)
  qed
qed

lemma on_init_shape:
  "(fs (template_file (self w)) = Some StatFails \<and> on_init fs w = (Inl OSError, w)) \<or>
   (\<exists>ls. on_init fs w = (Inr (), w\<lparr>logged := logged w @ ls\<rparr>)) \<or>
   (\<exists>doc p s tc old ls.
      fs (template_file (self w)) = Some (Loads doc) \<and> p \<in> set paths_to_try \<and>
      descend doc p = Inr (YStr s) \<and> strip s \<noteq> [] \<and>
      templates (agent w) = Some tc \<and> system_template tc = Some old \<and>
      on_init fs w =
        (Inr (), w\<lparr>agent := (agent w)\<lparr>templates := Some (tc\<lparr>system_template := Some (YStr (strip s))\<rparr>)\<rparr>,
                   writes := writes w @ [strip s],
                   self := (self w)\<lparr>template_loaded := True\<rparr>,
                   logged := logged w @ ls\<rparr>))"
proof (cases "fs (template_file (self w))")
  case None
  then show ?thesis by (auto simp: on_init_absent emit_def)
next
  case (Some l)
  let ?w1 = "emit INFO (LoadingTemplate (instance_id (self w)) (template_file (self w))) w"
  show ?thesis
  proof (cases l)
    case StatFails
    with Some show ?thesis by (simp add: on_init_stat_fails)
  next
    case (Fails e)
    with Some show ?thesis by (auto simp: on_init_fails emit_def)
  next
    case (Loads doc)
    with Some have f: "fs (template_file (self w)) = Some (Loads doc)" by simp
    from try_paths_cases [of doc paths_to_try ?w1] show ?thesis
    proof
      assume "try_paths doc paths_to_try ?w1 = (Inr [], emit DEBUG NotFoundAtAnyPath ?w1)"
      from on_init_miss [where fs = fs and w = w, OF f this] show ?thesis by (auto simp: emit_def)
    next
      assume "\<exists>p s. p \<in> set paths_to_try \<and> descend doc p = Inr (YStr s) \<and> strip s \<noteq> [] \<and>
        try_paths doc paths_to_try ?w1 = (Inr (strip s), emit DEBUG (FoundAtPath p) ?w1)"
      then obtain p s where p: "p \<in> set paths_to_try" and d: "descend doc p = Inr (YStr s)"
        and ne: "strip s \<noteq> []"
        and t: "try_paths doc paths_to_try ?w1 = (Inr (strip s), emit DEBUG (FoundAtPath p) ?w1)"
        by blast
      let ?w2 = "emit DEBUG (FoundAtPath p) ?w1"
      show ?thesis
      proof (cases "templates (agent w) = None \<or>
          (\<exists>tc. templates (agent w) = Some tc \<and> system_template tc = None)")
        case True
        then have "apply_template (strip s) ?w2 = (None, emit WARNING NoTemplatesAttribute ?w2)"
          by (intro apply_template_absent) simp
        from on_init_hit [where fs = fs and w = w, OF f t ne this] show ?thesis
          by (auto simp: emit_def)
      next
        case False
        then obtain tc old where tc: "templates (agent w) = Some tc" "system_template tc = Some old"
          by auto
        then have tc2: "templates (agent ?w2) = Some tc" by simp
        note a = apply_template_present [OF tc2 tc(2), of "strip s"]
        note h = on_init_hit [where fs = fs and w = w, OF f t ne a]
        have "\<exists>ls. on_init fs w =
          (Inr (), w\<lparr>agent := (agent w)\<lparr>templates := Some (tc\<lparr>system_template := Some (YStr (strip s))\<rparr>)\<rparr>,
                   writes := writes w @ [strip s],
                   self := (self w)\<lparr>template_loaded := True\<rparr>,
                   logged := logged w @ ls\<rparr>)"
        proof (cases "len old")
          case (Inl e)
          with h show ?thesis by (simp add: emit_def) (rule exI, rule refl)
        next
          case (Inr n)
          with h show ?thesis by (simp add: emit_def) (rule exI, rule refl)
        qed
        with f p d ne tc show ?thesis by blast
      qed
    qed
  qed
qed

subsection \<open>Effects of the callbacks\<close>

lemma on_init_result:
  "fst (on_init fs w) =
     (if fs (template_file (self w)) = Some StatFails then Inl OSError else Inr ())"
proof (cases "fs (template_file (self w)) = Some StatFails")
  case True
  then show ?thesis by (simp add: on_init_stat_fails)
next
  case False
  with on_init_shape [of fs w] show ?thesis by auto
qed

lemma on_init_returns:
  "fs (template_file (self w)) \<noteq> Some StatFails \<Longrightarrow> fst (on_init fs w) = Inr ()"
  by (simp add: on_init_result)

lemma on_init_effect:
  "(self (snd (on_init fs w)) = self w \<and> agent (snd (on_init fs w)) = agent w \<and>
    writes (snd (on_init fs w)) = writes w) \<or>
   (\<exists>doc p s tc old.
      fs (template_file (self w)) = Some (Loads doc) \<and> p \<in> set paths_to_try \<and>
      descend doc p = Inr (YStr s) \<and> strip s \<noteq> [] \<and>
      templates (agent w) = Some tc \<and> system_template tc = Some old \<and>
      agent (snd (on_init fs w)) =
        (agent w)\<lparr>templates := Some (tc\<lparr>system_template := Some (YStr (strip s))\<rparr>)\<rparr> \<and>
      writes (snd (on_init fs w)) = writes w @ [strip s] \<and>
      self (snd (on_init fs w)) = (self w)\<lparr>template_loaded := True\<rparr>)"
  using on_init_shape [of fs w]
proof (elim disjE)
  assume "fs (template_file (self w)) = Some StatFails \<and> on_init fs w = (Inl OSError, w)"
  then show ?thesis by simp
next
  assume "\<exists>ls. on_init fs w = (Inr (), w\<lparr>logged := logged w @ ls\<rparr>)"
  then show ?thesis by auto
next
  assume "\<exists>doc p s tc old ls.
      fs (template_file (self w)) = Some (Loads doc) \<and> p \<in> set paths_to_try \<and>
      descend doc p = Inr (YStr s) \<and> strip s \<noteq> [] \<and>
      templates (agent w) = Some tc \<and> system_template tc = Some old \<and>
      on_init fs w =
        (Inr (), w\<lparr>agent := (agent w)\<lparr>templates := Some (tc\<lparr>system_template := Some (YStr (strip s))\<rparr>)\<rparr>,
                   writes := writes w @ [strip s],
                   self := (self w)\<lparr>template_loaded := True\<rparr>,
                   logged := logged w @ ls\<rparr>)"
  then obtain doc p s tc old ls where
    h: "fs (template_file (self w)) = Some (Loads doc)" "p \<in> set paths_to_try"
      "descend doc p = Inr (YStr s)" "strip s \<noteq> []"
      "templates (agent w) = Some tc" "system_template tc = Some old"
    and r: "on_init fs w =
        (Inr (), w\<lparr>agent := (agent w)\<lparr>templates := Some (tc\<lparr>system_template := Some (YStr (strip s))\<rparr>)\<rparr>,
                   writes := writes w @ [strip s],
                   self := (self w)\<lparr>template_loaded := True\<rparr>,
                   logged := logged w @ ls\<rparr>)"
    by blast
  have "agent (snd (on_init fs w)) =
        (agent w)\<lparr>templates := Some (tc\<lparr>system_template := Some (YStr (strip s))\<rparr>)\<rparr>"
    "writes (snd (on_init fs w)) = writes w @ [strip s]"
    "self (snd (on_init fs w)) = (self w)\<lparr>template_loaded := True\<rparr>"
    by (simp_all add: r)
  with h show ?thesis by blast
qed

lemma on_init_loaded_mono:
  "template_loaded (self w) \<Longrightarrow> template_loaded (self (snd (on_init fs w)))"
  using on_init_effect [of fs w] by auto

lemma on_init_writes_cases:
  "writes (snd (on_init fs w)) = writes w \<or>
   (\<exists>v. writes (snd (on_init fs w)) = writes w @ [v])"
  using on_init_effect [of fs w] by blast

lemma on_model_query_frame:
  "fst (on_model_query messages iid w) = Inr ()"
  "self (snd (on_model_query messages iid w)) = self w"
  "agent (snd (on_model_query messages iid w)) = agent w"
  "writes (snd (on_model_query messages iid w)) = writes w"
  by (simp_all add: on_model_query_def)

subsection \<open>Sequences of calls\<close>

lemma invoke_loaded_mono:
  "template_loaded (self w) \<Longrightarrow> template_loaded (self (snd (invoke c w)))"
  by (cases c) (simp_all add: on_init_loaded_mono on_model_query_frame)

lemma run_loaded_mono:
  "template_loaded (self w) \<Longrightarrow> template_loaded (self (snd (run cs w)))"
proof (induction cs arbitrary: w)
  case Nil
  then show ?case by simp
next
  case (Cons c cs)
  obtain r w' where i: "invoke c w = (r, w')" by (cases "invoke c w")
  from invoke_loaded_mono [OF Cons.prems, of c] i have l: "template_loaded (self w')" by simp
  show ?case
  proof (cases r)
    case (Inl e)
    with i l show ?thesis by simp
  next
    case (Inr u)
    with i Cons.IH [OF l] show ?thesis by simp
  qed
qed

lemma run_writes_ext:
  "\<exists>vs. writes (snd (run cs w)) = writes w @ vs \<and> length vs \<le> on_init_calls cs"
proof (induction cs arbitrary: w)
  case Nil
  show ?case by simp
next
  case (Cons c cs)
  obtain r w' where i: "invoke c w = (r, w')" by (cases "invoke c w")
  have s: "\<exists>us. writes w' = writes w @ us \<and> length us + on_init_calls cs \<le> on_init_calls (c # cs)"
  proof (cases c)
    case (OnInit fs)
    from on_init_writes_cases [of fs w] show ?thesis
    proof
      assume "writes (snd (on_init fs w)) = writes w"
      with i OnInit have "writes w' = writes w @ [] \<and>
        length ([] :: pystr list) + on_init_calls cs \<le> on_init_calls (c # cs)" by simp
      then show ?thesis by blast
    next
      assume "\<exists>v. writes (snd (on_init fs w)) = writes w @ [v]"
      then obtain v where "writes (snd (on_init fs w)) = writes w @ [v]" by blast
      with i OnInit have "writes w' = writes w @ [v] \<and>
        length [v] + on_init_calls cs \<le> on_init_calls (c # cs)" by simp
      then show ?thesis by blast
    qed
  next
    case (OnModelQuery messages iid)
    with i on_model_query_frame(4) [of messages iid w] have "writes w' = writes w @ [] \<and>
        length ([] :: pystr list) + on_init_calls cs \<le> on_init_calls (c # cs)" by simp
    then show ?thesis by blast
  qed
  then obtain us where us: "writes w' = writes w @ us"
    "length us + on_init_calls cs \<le> on_init_calls (c # cs)" by blast
  show ?case
  proof (cases r)
    case (Inl e)
    with i us have "writes (snd (run (c # cs) w)) = writes w @ us \<and>
      length us \<le> on_init_calls (c # cs)" by simp
    then show ?thesis by blast
  next
    case (Inr u)
    from Cons.IH [of w'] obtain vs where
      vs: "writes (snd (run cs w')) = writes w' @ vs" "length vs \<le> on_init_calls cs" by blast
    with i Inr us have "writes (snd (run (c # cs) w)) = writes w @ (us @ vs) \<and>
      length (us @ vs) \<le> on_init_calls (c # cs)" by simp
    then show ?thesis by blast
  qed
qed

subsection \<open>Calls that leave the agent alone\<close>

lemma on_init_unchanged:
  assumes "fs (template_file (self w)) = None \<or>
     fs (template_file (self w)) = Some StatFails \<or>
     (\<exists>e. fs (template_file (self w)) = Some (Fails e)) \<or>
     (\<exists>doc. fs (template_file (self w)) = Some (Loads doc) \<and>
        (\<forall>p\<in>set paths_to_try. \<forall>t. \<not> (descend doc p = Inr (YStr t) \<and> strip t \<noteq> []))) \<or>
     templates (agent w) = None \<or>
     (\<exists>tc. templates (agent w) = Some tc \<and> system_template tc = None)"
  shows "self (snd (on_init fs w)) = self w \<and> agent (snd (on_init fs w)) = agent w \<and>
    writes (snd (on_init fs w)) = writes w"
  using on_init_effect [of fs w] assms by (elim disjE) auto

lemma strip_empty_iff: "strip s = [] \<longleftrightarrow> (\<forall>c\<in>set s. isspace c)"
proof
  assume "strip s = []"
  then have a: "\<forall>c\<in>set (dropWhile isspace s). isspace c" by (simp add: strip_def)
  have "dropWhile isspace s = []"
  proof (rule ccontr)
    assume n: "dropWhile isspace s \<noteq> []"
    then have "\<not> isspace (hd (dropWhile isspace s))" by (rule hd_dropWhile)
    moreover from n have "hd (dropWhile isspace s) \<in> set (dropWhile isspace s)" by simp
    ultimately show False using a by blast
  qed
  then show "\<forall>c\<in>set s. isspace c" by simp
next
  assume "\<forall>c\<in>set s. isspace c"
  then show "strip s = []" by (auto simp: strip_def dest: set_dropWhileD)
qed

lemma unusable_value:
  "v = YStr [] \<or> (\<exists>s. v = YStr s \<and> (\<forall>c\<in>set s. isspace c)) \<or> (\<forall>s. v \<noteq> YStr s) \<Longrightarrow>
   \<not> usable v"
  by (auto simp: usable_iff strip_empty_iff)

subsection \<open>Two calls in a row\<close>

lemma apply_template_agent:
  "agent (snd (apply_template st w)) =
     (case templates (agent w) of
        None \<Rightarrow> agent w
      | Some tc \<Rightarrow>
         (case system_template tc of
            None \<Rightarrow> agent w
          | Some old \<Rightarrow> (agent w)\<lparr>templates := Some (tc\<lparr>system_template := Some (YStr st)\<rparr>)\<rparr>))"
  by (simp add: apply_template_def Let_def split: option.splits sum.splits)

lemma apply_template_writes:
  "writes (snd (apply_template st w)) =
     (case templates (agent w) of
        None \<Rightarrow> writes w
      | Some tc \<Rightarrow>
         (case system_template tc of
            None \<Rightarrow> writes w
          | Some old \<Rightarrow> writes w @ [st]))"
  by (simp add: apply_template_def Let_def split: option.splits sum.splits)

lemma apply_template_again:
  assumes "agent w1 = agent (snd (apply_template st w))"
  shows "agent (snd (apply_template st w1)) = agent w1"
    and "writes (snd (apply_template st w)) = writes w \<longrightarrow>
         writes (snd (apply_template st w1)) = writes w1"
    and "writes (snd (apply_template st w)) = writes w @ [v] \<longrightarrow>
         writes (snd (apply_template st w1)) = writes w1 @ [v]"
proof -
  show "agent (snd (apply_template st w1)) = agent w1"
  proof (cases "templates (agent w)")
    case None
    with assms have "templates (agent w1) = None" by (simp add: apply_template_agent)
    then show ?thesis by (simp add: apply_template_agent)
  next
    case (Some tc)
    show ?thesis
    proof (cases "system_template tc")
      case None
      with Some assms have "templates (agent w1) = Some tc" by (simp add: apply_template_agent)
      with None show ?thesis by (simp add: apply_template_agent)
    next
      case (Some old)
      with \<open>templates (agent w) = Some tc\<close> assms
      have "templates (agent w1) = Some (tc\<lparr>system_template := Some (YStr st)\<rparr>)"
        by (simp add: apply_template_agent)
      then show ?thesis by (simp add: apply_template_agent)
    qed
  qed
  show "writes (snd (apply_template st w)) = writes w \<longrightarrow>
    writes (snd (apply_template st w1)) = writes w1"
  proof (cases "templates (agent w)")
    case None
    with assms have "templates (agent w1) = None" by (simp add: apply_template_agent)
    then show ?thesis by (simp add: apply_template_writes)
  next
    case (Some tc)
    show ?thesis
    proof (cases "system_template tc")
      case None
      with Some assms have "templates (agent w1) = Some tc" by (simp add: apply_template_agent)
      with None show ?thesis by (simp add: apply_template_writes)
    next
      case (Some old)
      with \<open>templates (agent w) = Some tc\<close> show ?thesis by (simp add: apply_template_writes)
    qed
  qed
  show "writes (snd (apply_template st w)) = writes w @ [v] \<longrightarrow>
    writes (snd (apply_template st w1)) = writes w1 @ [v]"
  proof (cases "templates (agent w)")
    case None
    then show ?thesis by (simp add: apply_template_writes)
  next
    case (Some tc)
    show ?thesis
    proof (cases "system_template tc")
      case None
      with Some show ?thesis by (simp add: apply_template_writes)
    next
      case (Some old)
      with \<open>templates (agent w) = Some tc\<close> assms
      have "templates (agent w1) = Some (tc\<lparr>system_template := Some (YStr st)\<rparr>)"
        by (simp add: apply_template_agent)
      with Some \<open>templates (agent w) = Some tc\<close> show ?thesis
        by (simp add: apply_template_writes)
    qed
  qed
qed

lemma on_init_loads:
  assumes "fs (template_file (self w)) = Some (Loads doc)"
    and "fst (try_paths doc paths_to_try w0) = Inr st"
  shows "agent (snd (on_init fs w)) =
      (if st = [] then agent w else agent (snd (apply_template st w))) \<and>
    writes (snd (on_init fs w)) =
      (if st = [] then writes w else writes (snd (apply_template st w)))"
proof -
  let ?w1 = "emit INFO (LoadingTemplate (instance_id (self w)) (template_file (self w))) w"
  obtain r w2 where t: "try_paths doc paths_to_try ?w1 = (r, w2)"
    by (cases "try_paths doc paths_to_try ?w1")
  from try_paths_fst [of doc paths_to_try ?w1 w0] assms(2) t have r: "r = Inr st" by simp
  from try_paths_frame [of doc paths_to_try ?w1] t
  have f: "agent w2 = agent w" "writes w2 = writes w" by simp_all
  show ?thesis
  proof (cases "st = []")
    case True
    with t r on_init_miss [where fs = fs and w = w, OF assms(1)]
    have "on_init fs w = (Inr (), emit WARNING (NoValidTemplate (template_file (self w))) w2)"
      by simp
    with True f show ?thesis by simp
  next
    case False
    obtain x w3 where a: "apply_template st w2 = (x, w3)" by (cases "apply_template st w2")
    from t r have t': "try_paths doc paths_to_try ?w1 = (Inr st, w2)" by simp
    note h = on_init_hit [where fs = fs and w = w, OF assms(1) t' False a]
    have 1: "agent (snd (on_init fs w)) = agent w3" "writes (snd (on_init fs w)) = writes w3"
      by (simp_all add: h split: option.splits)
    from a have 2: "agent w3 = agent (snd (apply_template st w2))"
      "writes w3 = writes (snd (apply_template st w2))" by simp_all
    have 3: "agent (snd (apply_template st w2)) = agent (snd (apply_template st w))"
      "writes (snd (apply_template st w2)) = writes (snd (apply_template st w))"
      by (simp_all only: apply_template_agent apply_template_writes f)
    from False 1 2 3 show ?thesis by simp
  qed
qed

lemma on_init_same_file:
  "template_file (self (snd (on_init fs w))) = template_file (self w)"
  using on_init_effect [of fs w] by (auto simp: template_file_def)

lemma on_init_twice:
  "agent (snd (on_init fs (snd (on_init fs w)))) = agent (snd (on_init fs w)) \<and>
   (writes (snd (on_init fs w)) = writes w \<longrightarrow>
      writes (snd (on_init fs (snd (on_init fs w)))) = writes (snd (on_init fs w))) \<and>
   (\<forall>v. writes (snd (on_init fs w)) = writes w @ [v] \<longrightarrow>
      writes (snd (on_init fs (snd (on_init fs w)))) = writes (snd (on_init fs w)) @ [v])"
proof -
  define w1 where "w1 = snd (on_init fs w)"
  define w2 where "w2 = snd (on_init fs w1)"
  have tf: "template_file (self w1) = template_file (self w)"
    unfolding w1_def by (rule on_init_same_file)
  have "agent w2 = agent w1 \<and> (writes w1 = writes w \<longrightarrow> writes w2 = writes w1) \<and>
    (\<forall>v. writes w1 = writes w @ [v] \<longrightarrow> writes w2 = writes w1 @ [v])"
  proof (cases "\<exists>doc. fs (template_file (self w)) = Some (Loads doc)")
    case False
    have a: "fs (template_file (self w)) = None \<or>
      fs (template_file (self w)) = Some StatFails \<or>
      (\<exists>e. fs (template_file (self w)) = Some (Fails e))"
    proof (cases "fs (template_file (self w))")
      case None
      then show ?thesis by simp
    next
      case (Some l)
      with False show ?thesis by (cases l) auto
    qed
    then have a': "fs (template_file (self w)) = None \<or>
     fs (template_file (self w)) = Some StatFails \<or>
     (\<exists>e. fs (template_file (self w)) = Some (Fails e)) \<or>
     (\<exists>doc. fs (template_file (self w)) = Some (Loads doc) \<and>
        (\<forall>p\<in>set paths_to_try. \<forall>t. \<not> (descend doc p = Inr (YStr t) \<and> strip t \<noteq> []))) \<or>
     templates (agent w) = None \<or>
     (\<exists>tc. templates (agent w) = Some tc \<and> system_template tc = None)" by blast
    from a tf have "fs (template_file (self w1)) = None \<or>
      fs (template_file (self w1)) = Some StatFails \<or>
      (\<exists>e. fs (template_file (self w1)) = Some (Fails e))" by simp
    then have b': "fs (template_file (self w1)) = None \<or>
     fs (template_file (self w1)) = Some StatFails \<or>
     (\<exists>e. fs (template_file (self w1)) = Some (Fails e)) \<or>
     (\<exists>doc. fs (template_file (self w1)) = Some (Loads doc) \<and>
        (\<forall>p\<in>set paths_to_try. \<forall>t. \<not> (descend doc p = Inr (YStr t) \<and> strip t \<noteq> []))) \<or>
     templates (agent w1) = None \<or>
     (\<exists>tc. templates (agent w1) = Some tc \<and> system_template tc = None)" by blast
    note u1 = on_init_unchanged [where fs = fs and w = w, OF a', folded w1_def]
    note u2 = on_init_unchanged [where fs = fs and w = w1, OF b', folded w2_def]
    from u1 u2 show ?thesis by simp
  next
    case True
    then obtain doc where f: "fs (template_file (self w)) = Some (Loads doc)" by blast
    with tf have f1: "fs (template_file (self w1)) = Some (Loads doc)" by simp
    obtain st where st: "fst (try_paths doc paths_to_try w) = Inr st"
      using try_paths_returns by blast
    note l1 = on_init_loads [where fs = fs and w = w, OF f st, folded w1_def]
    note l2 = on_init_loads [where fs = fs and w = w1, OF f1 st, folded w2_def]
    show ?thesis
    proof (cases "st = []")
      case True
      with l1 l2 show ?thesis by simp
    next
      case False
      with l1 have e: "agent w1 = agent (snd (apply_template st w))"
        and r1: "writes w1 = writes (snd (apply_template st w))" by simp_all
      from False l2 have a2: "agent w2 = agent (snd (apply_template st w1))"
        and r2: "writes w2 = writes (snd (apply_template st w1))" by simp_all
      have 1: "agent w2 = agent w1"
        by (simp only: a2 apply_template_again(1) [OF e])
      have 2: "writes w1 = writes w \<longrightarrow> writes w2 = writes w1"
        using apply_template_again(2) [OF e] by (simp only: r1 r2)
      have 3: "\<forall>v. writes w1 = writes w @ [v] \<longrightarrow> writes w2 = writes w1 @ [v]"
      proof (intro allI impI)
        fix v assume "writes w1 = writes w @ [v]"
        with r1 have "writes (snd (apply_template st w)) = writes w @ [v]" by simp
        with apply_template_again(3) [OF e, of v]
        have "writes (snd (apply_template st w1)) = writes w1 @ [v]" by simp
        with r2 show "writes w2 = writes w1 @ [v]" by simp
      qed
      from 1 2 3 show ?thesis by simp
    qed
  qed
  then show ?thesis unfolding w2_def w1_def .
qed

subsection \<open>The scenario\<close>

lemma scenario_file [simp]:
  "template_file (self scenario_world) = (str ''instance_templates'', str ''task-42'' @ str ''.yaml'')"
  "template_file scenario_hook = (str ''instance_templates'', str ''task-42'' @ str ''.yaml'')"
  by (simp_all add: scenario_world_def scenario_hook_def init_def template_file_def)

lemma scenario_initial:
  "\<not> template_loaded (self scenario_world)" "agent scenario_world = scenario_agent"
  "writes scenario_world = []" "instance_id (self scenario_world) = str ''task-42''"
  by (simp_all add: scenario_world_def scenario_hook_def init_def)


lemma scenario_on_init:
  "on_init (fs_with (Loads scenario_doc)) scenario_world =
    (Inr (), scenario_world\<lparr>
       agent := \<lparr>templates = Some \<lparr>system_template =
                   Some (YStr (str ''You are a careful reviewer.''))\<rparr>\<rparr>,
       writes := [str ''You are a careful reviewer.''],
       self := scenario_hook\<lparr>template_loaded := True\<rparr>,
       logged := [(INFO, LoadingTemplate (str ''task-42'')
                     (str ''instance_templates'', str ''task-42'' @ str ''.yaml'')),
                  (DEBUG, FoundAtPath [str ''templates'', str ''system_template'']),
                  (INFO, TemplateApplied (str ''task-42'')),
                  (DEBUG, TemplateLengths 7 27)]\<rparr>)"
  by (simp add: on_init_def exists_def on_init_try_def open_safe_load_def
      extract_system_template_def paths_to_try_def apply_template_def emit_def fs_with_def
      scenario_doc_def scenario_world_def scenario_agent_def scenario_hook_def init_def
      template_file_def str_def strip_def isspace_def)


lemma layered_hits:
  "1 < length paths_to_try"
  "descend layered_doc (paths_to_try ! 1) = Inr (YStr (str '' second  ''))"
  "strip (str '' second  '') = str ''second''"
  "str ''second'' \<noteq> []"
  "\<forall>j<1. \<forall>t. \<not> (descend layered_doc (paths_to_try ! j) = Inr (YStr t) \<and> strip t \<noteq> [])"
  by (simp_all add: paths_to_try_def layered_doc_def str_def strip_def isspace_def)

section \<open>The claims\<close>

text \<open>
  C9: \<^verbatim>\<open>_extract_system_template\<close> is total over every parsed document, whatever the root
  and the intermediate values are: it never raises, and what it returns is equal to its own
  stripped form, so it is the empty string or a non-empty string without surrounding white
  space.
\<close>

theorem extract_system_template_total:
  "\<exists>r. fst (extract_system_template config w) = Inr r \<and> strip r = r"
proof -
  have e: "strip [] = []" by (simp add: strip_def)
  from try_paths_cases [of config paths_to_try w] show ?thesis
    unfolding extract_system_template_def
    by (auto simp: e strip_idem)
qed

text \<open>The roots \<^verbatim>\<open>None\<close>, a string, a number and a list, and two mappings.\<close>

theorem extract_system_template_total_witness:
  "fst (extract_system_template YNone scenario_world) = Inr [] \<and>
   fst (extract_system_template (YStr (str ''system_template'')) scenario_world) = Inr [] \<and>
   fst (extract_system_template (YInt 3) scenario_world) = Inr [] \<and>
   fst (extract_system_template (YSeq [YStr (str ''agent'')]) scenario_world) = Inr [] \<and>
   fst (extract_system_template layered_doc scenario_world) = Inr (str ''second'') \<and>
   (\<exists>r. fst (extract_system_template unusable_doc scenario_world) = Inr r \<and> strip r = r)"
  using extract_system_template_total [of unusable_doc scenario_world]
  by (simp add: extract_system_template_def paths_to_try_def layered_doc_def str_def strip_def
      isspace_def)

text \<open>
  C5: \<^verbatim>\<open>on_model_query\<close> sends its informational line exactly when the flag is set and
  there is exactly one message; in every other case it leaves the whole state as it is; it
  never raises and never changes the hook, the agent or the history of assignments.
\<close>

theorem on_model_query_signal:
  "fst (on_model_query messages iid w) = Inr () \<and>
   self (snd (on_model_query messages iid w)) = self w \<and>
   agent (snd (on_model_query messages iid w)) = agent w \<and>
   writes (snd (on_model_query messages iid w)) = writes w \<and>
   (logged (snd (on_model_query messages iid w)) =
      logged w @ [(INFO, UsingCustomTemplate (instance_id (self w)))]) =
     (template_loaded (self w) \<and> length messages = 1) \<and>
   (snd (on_model_query messages iid w) = w) =
     (\<not> (template_loaded (self w) \<and> length messages = 1))"
proof -
  have "emit INFO (UsingCustomTemplate (instance_id (self w))) w \<noteq> w"
  proof
    assume "emit INFO (UsingCustomTemplate (instance_id (self w))) w = w"
    then have "logged (emit INFO (UsingCustomTemplate (instance_id (self w))) w) = logged w"
      by simp
    then show False by simp
  qed
  then show ?thesis by (simp add: on_model_query_def)
qed

theorem on_model_query_signal_witness:
  "logged (snd (on_model_query [()] (str ''task-42'')
      (scenario_world\<lparr>self := scenario_hook\<lparr>template_loaded := True\<rparr>\<rparr>))) =
     [(INFO, UsingCustomTemplate (str ''task-42''))] \<and>
   snd (on_model_query [(), ()] (str ''task-42'')
      (scenario_world\<lparr>self := scenario_hook\<lparr>template_loaded := True\<rparr>\<rparr>)) =
     scenario_world\<lparr>self := scenario_hook\<lparr>template_loaded := True\<rparr>\<rparr> \<and>
   snd (on_model_query [()] (str ''task-42'') scenario_world) = scenario_world"
  using on_model_query_signal [of "[()]" "str ''task-42''"
      "scenario_world\<lparr>self := scenario_hook\<lparr>template_loaded := True\<rparr>\<rparr>"]
    on_model_query_signal [of "[(), ()]" "str ''task-42''"
      "scenario_world\<lparr>self := scenario_hook\<lparr>template_loaded := True\<rparr>\<rparr>"]
    on_model_query_signal [of "[()]" "str ''task-42''" scenario_world]
  by (simp add: scenario_world_def scenario_hook_def init_def)

text \<open>
  C8: the flag \<^verbatim>\<open>template_loaded\<close> is monotone. The constructor sets it to false;
  \<^verbatim>\<open>on_init\<close> either leaves it as it is or sets it to true; \<^verbatim>\<open>on_model_query\<close> leaves
  it as it is; so once it is true it stays true after each callback and after every sequence
  of callbacks.
\<close>

theorem template_loaded_monotone:
  "\<not> template_loaded (init iid dir) \<and>
   (template_loaded (self (snd (on_init fs w))) = template_loaded (self w) \<or>
    template_loaded (self (snd (on_init fs w)))) \<and>
   template_loaded (self (snd (on_model_query messages qid w))) = template_loaded (self w) \<and>
   (template_loaded (self w) \<longrightarrow>
      template_loaded (self (snd (on_init fs w))) \<and>
      template_loaded (self (snd (on_model_query messages qid w))) \<and>
      template_loaded (self (snd (run (cs :: 'm call list) w))))"
proof -
  have a: "\<not> template_loaded (init iid dir)" by (simp add: init_def)
  have b: "template_loaded (self (snd (on_init fs w))) = template_loaded (self w) \<or>
    template_loaded (self (snd (on_init fs w)))"
    using on_init_effect [of fs w] by auto
  have c: "template_loaded (self (snd (on_model_query messages qid w))) =
    template_loaded (self w)"
    by (simp add: on_model_query_frame)
  show ?thesis using a b c on_init_loaded_mono run_loaded_mono by blast
qed

text \<open>
  A loaded hook stays loaded when the file has gone, and through a sequence of four calls.
\<close>

theorem template_loaded_monotone_witness:
  "template_loaded (self (snd (on_init Map.empty
      (scenario_world\<lparr>self := scenario_hook\<lparr>template_loaded := True\<rparr>\<rparr>)))) \<and>
   template_loaded (self (snd (run
      [OnInit Map.empty, OnModelQuery [()] [], OnInit (fs_with (Fails YAMLError)),
       OnModelQuery [] []]
      (scenario_world\<lparr>self := scenario_hook\<lparr>template_loaded := True\<rparr>\<rparr>))))"
  using template_loaded_monotone [of "[]" "[]" Map.empty
      "scenario_world\<lparr>self := scenario_hook\<lparr>template_loaded := True\<rparr>\<rparr>" "[()]" "[]"
      "[OnInit Map.empty, OnModelQuery [()] [], OnInit (fs_with (Fails YAMLError)),
        OnModelQuery [] []]"]
  by (simp add: scenario_world_def)

text \<open>
  C10: whenever \<^verbatim>\<open>on_init\<close> assigns \<^verbatim>\<open>agent.templates.system_template\<close>, the value is a
  non-empty string that is its own stripped form: it neither starts nor ends with white
  space and is not made of white space only. Otherwise no assignment happens and the agent is
  unchanged.
\<close>

theorem on_init_writes_stripped:
  "writes (snd (on_init fs w)) = writes w \<and> agent (snd (on_init fs w)) = agent w \<or>
   (\<exists>v tc. writes (snd (on_init fs w)) = writes w @ [v] \<and>
      templates (agent (snd (on_init fs w))) = Some tc \<and> system_template tc = Some (YStr v) \<and>
      v \<noteq> [] \<and> strip v = v \<and> \<not> isspace (hd v) \<and> \<not> isspace (last v) \<and>
      \<not> (\<forall>c\<in>set v. isspace c))"
proof -
  from on_init_effect [of fs w] show ?thesis
  proof
    assume "self (snd (on_init fs w)) = self w \<and> agent (snd (on_init fs w)) = agent w \<and>
      writes (snd (on_init fs w)) = writes w"
    then show ?thesis by simp
  next
    assume "\<exists>doc p s tc old.
      fs (template_file (self w)) = Some (Loads doc) \<and> p \<in> set paths_to_try \<and>
      descend doc p = Inr (YStr s) \<and> strip s \<noteq> [] \<and>
      templates (agent w) = Some tc \<and> system_template tc = Some old \<and>
      agent (snd (on_init fs w)) =
        (agent w)\<lparr>templates := Some (tc\<lparr>system_template := Some (YStr (strip s))\<rparr>)\<rparr> \<and>
      writes (snd (on_init fs w)) = writes w @ [strip s] \<and>
      self (snd (on_init fs w)) = (self w)\<lparr>template_loaded := True\<rparr>"
    then obtain s tc where ne: "strip s \<noteq> []"
      and a: "agent (snd (on_init fs w)) =
        (agent w)\<lparr>templates := Some (tc\<lparr>system_template := Some (YStr (strip s))\<rparr>)\<rparr>"
      and wr: "writes (snd (on_init fs w)) = writes w @ [strip s]"
      by blast
    have h: "\<not> isspace (hd (strip s))" using ne by (rule strip_hd)
    have l: "\<not> isspace (last (strip s))" using ne by (rule strip_last)
    have "hd (strip s) \<in> set (strip s)" using ne by simp
    with h have n: "\<not> (\<forall>c\<in>set (strip s). isspace c)" by blast
    from a have "templates (agent (snd (on_init fs w))) =
      Some (tc\<lparr>system_template := Some (YStr (strip s))\<rparr>)" by simp
    with wr ne h l n strip_idem [of s] show ?thesis by auto
  qed
qed

theorem on_init_writes_stripped_witness:
  "writes (snd (on_init (fs_with (Loads scenario_doc)) scenario_world)) =
     [str ''You are a careful reviewer.''] \<and>
   (\<exists>v tc. writes (snd (on_init (fs_with (Loads scenario_doc)) scenario_world)) =
       writes scenario_world @ [v] \<and>
      templates (agent (snd (on_init (fs_with (Loads scenario_doc)) scenario_world))) = Some tc \<and>
      system_template tc = Some (YStr v) \<and> v \<noteq> [] \<and> strip v = v)"
proof -
  have w: "writes (snd (on_init (fs_with (Loads scenario_doc)) scenario_world)) =
      [str ''You are a careful reviewer.'']"
    by (simp add: scenario_on_init)
  have sw: "writes scenario_world = []" by (simp add: scenario_world_def)
  from on_init_writes_stripped [of "fs_with (Loads scenario_doc)" scenario_world] w sw
  show ?thesis by auto
qed

text \<open>
  C1: when the file loads to a document in which path number \<open>i\<close> of the fixed order reaches
  a string \<open>s\<close> with content other than white space, no earlier path reaches such a string,
  and the agent has the attribute path \<^verbatim>\<open>templates.system_template\<close> (whatever it holds),
  then \<^verbatim>\<open>on_init\<close> returns normally, assigns \<open>s\<close> without its surrounding white space to the
  attribute, and sets \<^verbatim>\<open>template_loaded\<close>. The paths after number \<open>i\<close> are not consulted:
  the extraction gives the same result and the same log line whatever stands after path
  number \<open>i\<close> in the list.
\<close>

theorem on_init_first_path_wins:
  assumes "fs (template_file (self w)) = Some (Loads doc)"
    and "i < length paths_to_try"
    and "descend doc (paths_to_try ! i) = Inr (YStr s)"
    and "strip s \<noteq> []"
    and "\<forall>j<i. \<forall>t. \<not> (descend doc (paths_to_try ! j) = Inr (YStr t) \<and> strip t \<noteq> [])"
    and "templates (agent w) = Some tc"
    and "system_template tc = Some old"
  shows "fst (on_init fs w) = Inr () \<and>
    agent (snd (on_init fs w)) =
      (agent w)\<lparr>templates := Some (tc\<lparr>system_template := Some (YStr (strip s))\<rparr>)\<rparr> \<and>
    template_loaded (self (snd (on_init fs w))) \<and>
    writes (snd (on_init fs w)) = writes w @ [strip s] \<and>
    (\<forall>rest w'. try_paths doc (take (Suc i) paths_to_try @ rest) w' =
       (Inr (strip s), emit DEBUG (FoundAtPath (paths_to_try ! i)) w'))"
proof -
  note r = on_init_first_hit [where fs = fs and w = w, OF assms]
  have 1: "fst (on_init fs w) = Inr ()" by (simp add: r)
  have 2: "agent (snd (on_init fs w)) =
      (agent w)\<lparr>templates := Some (tc\<lparr>system_template := Some (YStr (strip s))\<rparr>)\<rparr>"
    by (simp add: r)
  have 3: "template_loaded (self (snd (on_init fs w)))" by (simp add: r)
  have 4: "writes (snd (on_init fs w)) = writes w @ [strip s]" by (simp add: r)
  have 5: "\<forall>rest w'. try_paths doc (take (Suc i) paths_to_try @ rest) w' =
       (Inr (strip s), emit DEBUG (FoundAtPath (paths_to_try ! i)) w')"
    using try_paths_prefix [OF assms(2,3,4,5)] by blast
  from 1 2 3 4 5 show ?thesis by blast
qed

text \<open>
  The layered document has a padded template at the second path and another template at the
  third; the first path ends in a number. The second path wins and its value is trimmed.
\<close>

theorem on_init_first_path_wins_witness:
  "fst (on_init (fs_with (Loads layered_doc)) scenario_world) = Inr () \<and>
   agent (snd (on_init (fs_with (Loads layered_doc)) scenario_world)) =
     \<lparr>templates = Some \<lparr>system_template = Some (YStr (str ''second''))\<rparr>\<rparr> \<and>
   template_loaded (self (snd (on_init (fs_with (Loads layered_doc)) scenario_world))) \<and>
   writes (snd (on_init (fs_with (Loads layered_doc)) scenario_world)) = [str ''second'']"
proof -
  have f: "fs_with (Loads layered_doc) (template_file (self scenario_world)) =
      Some (Loads layered_doc)" by (simp add: fs_with_def)
  have ne: "strip (str '' second  '') \<noteq> []" by (simp add: layered_hits)
  have tc: "templates (agent scenario_world) =
      Some \<lparr>system_template = Some (YStr (str ''default''))\<rparr>"
    by (simp add: scenario_world_def scenario_agent_def)
  have old: "system_template \<lparr>system_template = Some (YStr (str ''default''))\<rparr> =
      Some (YStr (str ''default''))" by simp
  have a: "agent scenario_world =
      \<lparr>templates = Some \<lparr>system_template = Some (YStr (str ''default''))\<rparr>\<rparr>"
    by (simp add: scenario_world_def scenario_agent_def)
  from on_init_first_path_wins [where fs = "fs_with (Loads layered_doc)" and w = scenario_world,
      OF f layered_hits(1) layered_hits(2) ne layered_hits(5) tc old]
    layered_hits(3) a scenario_initial(3)
  show ?thesis by simp
qed




text \<open>
  C3 fails on the code where \<^verbatim>\<open>os.stat\<close> fails on the path of the file with an error
  that \<^verbatim>\<open>Path.exists\<close> raises again: a template directory that may not be searched
  (\<^verbatim>\<open>EACCES\<close>), or an instance id of 300 letters, whose file name is too long
  (\<^verbatim>\<open>ENAMETOOLONG\<close>). No file corresponds to the instance id in either case. The test
  stands before the \<^verbatim>\<open>try\<close> block, so \<^verbatim>\<open>on_init\<close> raises the \<^verbatim>\<open>OSError\<close> to its
  caller, with the state as it was, whereas the same error raised by \<^verbatim>\<open>open\<close> inside
  the block is caught and logged.
\<close>

theorem on_init_stat_error_propagates:
  "on_init (fs_with StatFails) scenario_world = (Inl OSError, scenario_world) \<and>
   on_init long_id_fs (scenario_world\<lparr>self := long_id_hook\<rparr>) =
     (Inl OSError, scenario_world\<lparr>self := long_id_hook\<rparr>) \<and>
   length (instance_id long_id_hook) = 300 \<and>
   fst (on_init (fs_with (Fails OSError)) scenario_world) = Inr ()"
proof -
  have "fs_with StatFails (template_file (self scenario_world)) = Some StatFails"
    by (simp add: fs_with_def)
  then have 0: "on_init (fs_with StatFails) scenario_world = (Inl OSError, scenario_world)"
    by (rule on_init_stat_fails)
  have "long_id_fs (template_file (self (scenario_world\<lparr>self := long_id_hook\<rparr>))) =
      Some StatFails" by (simp add: long_id_fs_def)
  then have 1: "on_init long_id_fs (scenario_world\<lparr>self := long_id_hook\<rparr>) =
     (Inl OSError, scenario_world\<lparr>self := long_id_hook\<rparr>)" by (rule on_init_stat_fails)
  have 2: "length (instance_id long_id_hook) = 300" by (simp add: long_id_hook_def init_def)
  have "fs_with (Fails OSError) (template_file (self scenario_world)) \<noteq> Some StatFails"
    by (simp add: fs_with_def)
  then have 3: "fst (on_init (fs_with (Fails OSError)) scenario_world) = Inr ()"
    by (rule on_init_returns)
  from 0 1 2 3 show ?thesis by blast
qed

text \<open>
  C4: when the value that a path reaches is the empty string, a string of white space only,
  or not a string at all, the extraction treats the path as a miss and goes on with the
  paths that follow it, in their order. When every one of the four paths misses, by such a
  value or by a failed lookup, \<^verbatim>\<open>on_init\<close> returns normally and leaves the agent, the hook
  and the history of assignments as they were.
\<close>

theorem unusable_value_is_a_miss:
  "(descend doc p = Inr v \<and>
    (v = YStr [] \<or> (\<exists>s. v = YStr s \<and> (\<forall>c\<in>set s. isspace c)) \<or> (\<forall>s. v \<noteq> YStr s)) \<longrightarrow>
      try_paths doc (p # ps) w = try_paths doc ps w) \<and>
   (fs (template_file (self w)) = Some (Loads doc) \<and>
    (\<forall>q\<in>set paths_to_try.
       (\<exists>e. descend doc q = Inl e) \<or>
       (\<exists>u. descend doc q = Inr u \<and>
          (u = YStr [] \<or> (\<exists>s. u = YStr s \<and> (\<forall>c\<in>set s. isspace c)) \<or> (\<forall>s. u \<noteq> YStr s)))) \<longrightarrow>
      fst (extract_system_template doc w) = Inr [] \<and>
      fst (on_init fs w) = Inr () \<and>
      agent (snd (on_init fs w)) = agent w \<and>
      self (snd (on_init fs w)) = self w \<and>
      writes (snd (on_init fs w)) = writes w)"
proof -
  have 1: "descend doc p = Inr v \<and>
    (v = YStr [] \<or> (\<exists>s. v = YStr s \<and> (\<forall>c\<in>set s. isspace c)) \<or> (\<forall>s. v \<noteq> YStr s)) \<longrightarrow>
      try_paths doc (p # ps) w = try_paths doc ps w"
  proof
    assume h: "descend doc p = Inr v \<and>
      (v = YStr [] \<or> (\<exists>s. v = YStr s \<and> (\<forall>c\<in>set s. isspace c)) \<or> (\<forall>s. v \<noteq> YStr s))"
    then have "\<not> usable v" by (intro unusable_value) blast
    with h show "try_paths doc (p # ps) w = try_paths doc ps w" by (intro try_paths_skip) auto
  qed
  have 2: "fs (template_file (self w)) = Some (Loads doc) \<and>
    (\<forall>q\<in>set paths_to_try.
       (\<exists>e. descend doc q = Inl e) \<or>
       (\<exists>u. descend doc q = Inr u \<and>
          (u = YStr [] \<or> (\<exists>s. u = YStr s \<and> (\<forall>c\<in>set s. isspace c)) \<or> (\<forall>s. u \<noteq> YStr s)))) \<longrightarrow>
      fst (extract_system_template doc w) = Inr [] \<and>
      fst (on_init fs w) = Inr () \<and>
      agent (snd (on_init fs w)) = agent w \<and>
      self (snd (on_init fs w)) = self w \<and>
      writes (snd (on_init fs w)) = writes w"
  proof
    assume h: "fs (template_file (self w)) = Some (Loads doc) \<and>
      (\<forall>q\<in>set paths_to_try.
         (\<exists>e. descend doc q = Inl e) \<or>
         (\<exists>u. descend doc q = Inr u \<and>
            (u = YStr [] \<or> (\<exists>s. u = YStr s \<and> (\<forall>c\<in>set s. isspace c)) \<or> (\<forall>s. u \<noteq> YStr s))))"
    have m: "\<forall>q\<in>set paths_to_try. \<forall>t. \<not> (descend doc q = Inr (YStr t) \<and> strip t \<noteq> [])"
    proof (intro ballI allI notI)
      fix q t assume q: "q \<in> set paths_to_try"
        and d: "descend doc q = Inr (YStr t) \<and> strip t \<noteq> []"
      from h q d have "YStr t = YStr [] \<or> (\<exists>s. YStr t = YStr s \<and> (\<forall>c\<in>set s. isspace c)) \<or>
        (\<forall>s. YStr t \<noteq> YStr s)" by fastforce
      then have "\<not> usable (YStr t)" by (rule unusable_value)
      with d show False by simp
    qed
    from h have f: "fs (template_file (self w)) = Some (Loads doc)" by blast
    then have n: "fs (template_file (self w)) \<noteq> Some StatFails" by simp
    from f m have "fs (template_file (self w)) = None \<or>
     fs (template_file (self w)) = Some StatFails \<or>
     (\<exists>e. fs (template_file (self w)) = Some (Fails e)) \<or>
     (\<exists>doc. fs (template_file (self w)) = Some (Loads doc) \<and>
        (\<forall>p\<in>set paths_to_try. \<forall>t. \<not> (descend doc p = Inr (YStr t) \<and> strip t \<noteq> []))) \<or>
     templates (agent w) = None \<or>
     (\<exists>tc. templates (agent w) = Some tc \<and> system_template tc = None)" by blast
    note u = on_init_unchanged [where fs = fs and w = w, OF this]
    from try_paths_cases [of doc paths_to_try w] m
    have e: "fst (extract_system_template doc w) = Inr []"
      unfolding extract_system_template_def by auto
    from u e on_init_returns [where fs = fs and w = w, OF n]
    show "fst (extract_system_template doc w) = Inr [] \<and>
      fst (on_init fs w) = Inr () \<and>
      agent (snd (on_init fs w)) = agent w \<and>
      self (snd (on_init fs w)) = self w \<and>
      writes (snd (on_init fs w)) = writes w" by simp
  qed
  from 1 2 show ?thesis by blast
qed

text \<open>
  In the document of unusable values the first path reaches the empty string, the second a
  string of two blanks, the third a nested mapping and the fourth a number.
\<close>

theorem unusable_value_is_a_miss_witness:
  "try_paths unusable_doc paths_to_try scenario_world =
     try_paths unusable_doc (drop 1 paths_to_try) scenario_world \<and>
   try_paths unusable_doc (drop 1 paths_to_try) scenario_world =
     try_paths unusable_doc (drop 2 paths_to_try) scenario_world \<and>
   try_paths unusable_doc (drop 2 paths_to_try) scenario_world =
     try_paths unusable_doc (drop 3 paths_to_try) scenario_world \<and>
   try_paths unusable_doc (drop 3 paths_to_try) scenario_world =
     try_paths unusable_doc [] scenario_world \<and>
   fst (extract_system_template unusable_doc scenario_world) = Inr [] \<and>
   fst (on_init (fs_with (Loads unusable_doc)) scenario_world) = Inr () \<and>
   agent (snd (on_init (fs_with (Loads unusable_doc)) scenario_world)) = scenario_agent \<and>
   writes (snd (on_init (fs_with (Loads unusable_doc)) scenario_world)) = []"
proof -
  have p: "paths_to_try = paths_to_try ! 0 # drop 1 paths_to_try"
    "drop 1 paths_to_try = paths_to_try ! 1 # drop 2 paths_to_try"
    "drop 2 paths_to_try = paths_to_try ! 2 # drop 3 paths_to_try"
    "drop 3 paths_to_try = paths_to_try ! 3 # []"
    by (simp_all add: paths_to_try_def)
  have 0: "descend unusable_doc (paths_to_try ! 0) = Inr (YStr []) \<and>
    (YStr [] = YStr [] \<or> (\<exists>s. YStr [] = YStr s \<and> (\<forall>c\<in>set s. isspace c)) \<or>
     (\<forall>s. YStr [] \<noteq> YStr s))"
    by (simp add: paths_to_try_def unusable_doc_def str_def)
  have 1: "descend unusable_doc (paths_to_try ! 1) = Inr (YStr (str ''  '')) \<and>
    (YStr (str ''  '') = YStr [] \<or>
     (\<exists>s. YStr (str ''  '') = YStr s \<and> (\<forall>c\<in>set s. isspace c)) \<or>
     (\<forall>s. YStr (str ''  '') \<noteq> YStr s))"
    by (simp add: paths_to_try_def unusable_doc_def str_def isspace_def)
  have 2: "descend unusable_doc (paths_to_try ! 2) =
      Inr (YMap [(YStr (str ''text''), YStr (str ''nested''))]) \<and>
    (YMap [(YStr (str ''text''), YStr (str ''nested''))] = YStr [] \<or>
     (\<exists>s. YMap [(YStr (str ''text''), YStr (str ''nested''))] = YStr s \<and>
        (\<forall>c\<in>set s. isspace c)) \<or>
     (\<forall>s. YMap [(YStr (str ''text''), YStr (str ''nested''))] \<noteq> YStr s))"
    by (simp add: paths_to_try_def unusable_doc_def str_def)
  have 3: "descend unusable_doc (paths_to_try ! 3) = Inr (YInt 42) \<and>
    (YInt 42 = YStr [] \<or> (\<exists>s. YInt 42 = YStr s \<and> (\<forall>c\<in>set s. isspace c)) \<or>
     (\<forall>s. YInt 42 \<noteq> YStr s))"
    by (simp add: paths_to_try_def unusable_doc_def str_def)
  have f: "fs_with (Loads unusable_doc) (template_file (self scenario_world)) =
      Some (Loads unusable_doc) \<and>
    (\<forall>q\<in>set paths_to_try.
       (\<exists>e. descend unusable_doc q = Inl e) \<or>
       (\<exists>u. descend unusable_doc q = Inr u \<and>
          (u = YStr [] \<or> (\<exists>s. u = YStr s \<and> (\<forall>c\<in>set s. isspace c)) \<or> (\<forall>s. u \<noteq> YStr s))))"
    by (simp add: fs_with_def paths_to_try_def unusable_doc_def str_def isspace_def)
  note a0 = unusable_value_is_a_miss [where doc = unusable_doc and p = "paths_to_try ! 0"
      and v = "YStr []" and ps = "drop 1 paths_to_try" and w = scenario_world,
      THEN conjunct1, THEN mp, OF 0, folded p(1)]
  note a1 = unusable_value_is_a_miss [where doc = unusable_doc and p = "paths_to_try ! 1"
      and v = "YStr (str ''  '')" and ps = "drop 2 paths_to_try" and w = scenario_world,
      THEN conjunct1, THEN mp, OF 1, folded p(2)]
  note a2 = unusable_value_is_a_miss [where doc = unusable_doc and p = "paths_to_try ! 2"
      and v = "YMap [(YStr (str ''text''), YStr (str ''nested''))]"
      and ps = "drop 3 paths_to_try" and w = scenario_world,
      THEN conjunct1, THEN mp, OF 2, folded p(3)]
  note a3 = unusable_value_is_a_miss [where doc = unusable_doc and p = "paths_to_try ! 3"
      and v = "YInt 42" and ps = "[]" and w = scenario_world,
      THEN conjunct1, THEN mp, OF 3, folded p(4)]
  note b = unusable_value_is_a_miss [where doc = unusable_doc
      and fs = "fs_with (Loads unusable_doc)" and w = scenario_world,
      THEN conjunct2, THEN mp, OF f]
  from a0 a1 a2 a3 b scenario_initial(2,3) show ?thesis by simp
qed

text \<open>
  C6: a second call of \<^verbatim>\<open>on_init\<close> on the same hook, against the same file system and with
  the agent as the first call has left it, leaves the template attribute of the agent as it
  was after the first call. When the first call has assigned a value, the second call assigns
  the same value again; when the first call has assigned nothing, the second assigns nothing.
\<close>

theorem on_init_idempotent:
  "agent (snd (on_init fs (snd (on_init fs w)))) = agent (snd (on_init fs w)) \<and>
   (\<forall>v. writes (snd (on_init fs w)) = writes w @ [v] \<longrightarrow>
      writes (snd (on_init fs (snd (on_init fs w)))) = writes w @ [v, v]) \<and>
   (writes (snd (on_init fs w)) = writes w \<longrightarrow>
      writes (snd (on_init fs (snd (on_init fs w)))) = writes w)"
  using on_init_twice [of fs w] by auto

theorem on_init_idempotent_witness:
  "agent (snd (on_init (fs_with (Loads scenario_doc))
      (snd (on_init (fs_with (Loads scenario_doc)) scenario_world)))) =
     \<lparr>templates = Some \<lparr>system_template = Some (YStr (str ''You are a careful reviewer.''))\<rparr>\<rparr> \<and>
   writes (snd (on_init (fs_with (Loads scenario_doc))
      (snd (on_init (fs_with (Loads scenario_doc)) scenario_world)))) =
     [str ''You are a careful reviewer.'', str ''You are a careful reviewer.'']"
proof -
  have a: "agent (snd (on_init (fs_with (Loads scenario_doc)) scenario_world)) =
      \<lparr>templates = Some \<lparr>system_template = Some (YStr (str ''You are a careful reviewer.''))\<rparr>\<rparr>"
    by (simp add: scenario_on_init)
  have "writes (snd (on_init (fs_with (Loads scenario_doc)) scenario_world)) =
      [str ''You are a careful reviewer.'']"
    by (simp add: scenario_on_init)
  then have w: "writes (snd (on_init (fs_with (Loads scenario_doc)) scenario_world)) =
      writes scenario_world @ [str ''You are a careful reviewer.'']"
    by (simp only: scenario_initial(3) append_Nil)
  note t = on_init_idempotent [of "fs_with (Loads scenario_doc)" scenario_world]
  from t have 1: "agent (snd (on_init (fs_with (Loads scenario_doc))
      (snd (on_init (fs_with (Loads scenario_doc)) scenario_world)))) =
    agent (snd (on_init (fs_with (Loads scenario_doc)) scenario_world))" by blast
  from t w have 2: "writes (snd (on_init (fs_with (Loads scenario_doc))
      (snd (on_init (fs_with (Loads scenario_doc)) scenario_world)))) =
    writes scenario_world @ [str ''You are a careful reviewer.'', str ''You are a careful reviewer.'']"
    by blast
  from 1 2 a scenario_initial(3) show ?thesis by simp
qed

text \<open>
  C7, as stated, fails: nothing in \<^verbatim>\<open>on_init\<close> looks at \<^verbatim>\<open>template_loaded\<close>, so each call
  that finds a usable template assigns it. Two calls on the hook of the scenario with the
  same file assign the template twice; and when the file has changed between the calls, with
  a query in between, the second call replaces the template that the first has set.
\<close>

theorem on_init_applies_again_counterexample:
  "writes (snd (run [OnInit (fs_with (Loads scenario_doc)), OnInit (fs_with (Loads scenario_doc))]
      scenario_world)) =
     [str ''You are a careful reviewer.'', str ''You are a careful reviewer.''] \<and>
   \<not> length (writes (snd (run
       [OnInit (fs_with (Loads scenario_doc)), OnInit (fs_with (Loads scenario_doc))]
       scenario_world))) \<le> 1 \<and>
   writes (snd (run [OnInit (fs_with (Loads scenario_doc)), OnModelQuery [()] (str ''task-42''),
       OnInit (fs_with (Loads layered_doc))] scenario_world)) =
     [str ''You are a careful reviewer.'', str ''second''] \<and>
   agent (snd (run [OnInit (fs_with (Loads scenario_doc)), OnModelQuery [()] (str ''task-42''),
       OnInit (fs_with (Loads layered_doc))] scenario_world)) =
     \<lparr>templates = Some \<lparr>system_template = Some (YStr (str ''second''))\<rparr>\<rparr>"
  by (simp add: on_init_def exists_def on_init_try_def open_safe_load_def on_model_query_def
      extract_system_template_def paths_to_try_def apply_template_def emit_def fs_with_def
      scenario_doc_def layered_doc_def scenario_world_def scenario_agent_def scenario_hook_def
      init_def template_file_def str_def strip_def isspace_def Let_def)

text \<open>
  C7, amended: a single \<^verbatim>\<open>on_init\<close> call makes at most one assignment to
  \<^verbatim>\<open>agent.templates.system_template\<close>, and leaves the agent as it was when it makes none;
  \<^verbatim>\<open>on_model_query\<close> makes none. So over every sequence of callbacks on one hook the number
  of assignments is at most the number of \<^verbatim>\<open>on_init\<close> calls in the sequence, and at most one
  when the sequence has at most one \<^verbatim>\<open>on_init\<close> call.
\<close>

theorem override_applications_bounded:
  "(\<exists>vs. writes (snd (on_init fs w)) = writes w @ vs \<and> length vs \<le> 1) \<and>
   (writes (snd (on_init fs w)) = writes w \<longrightarrow> agent (snd (on_init fs w)) = agent w) \<and>
   writes (snd (on_model_query messages iid w)) = writes w \<and>
   agent (snd (on_model_query messages iid w)) = agent w \<and>
   (\<exists>vs. writes (snd (run cs w)) = writes w @ vs \<and> length vs \<le> on_init_calls cs) \<and>
   (on_init_calls cs \<le> 1 \<longrightarrow> length (writes (snd (run cs w))) \<le> Suc (length (writes w)))"
proof -
  have 1: "\<exists>vs. writes (snd (on_init fs w)) = writes w @ vs \<and> length vs \<le> 1"
    using on_init_writes_cases [of fs w]
  proof
    assume "writes (snd (on_init fs w)) = writes w"
    then have "writes (snd (on_init fs w)) = writes w @ [] \<and> length ([] :: pystr list) \<le> 1"
      by simp
    then show ?thesis by blast
  next
    assume "\<exists>v. writes (snd (on_init fs w)) = writes w @ [v]"
    then obtain v where "writes (snd (on_init fs w)) = writes w @ [v]" by blast
    then have "writes (snd (on_init fs w)) = writes w @ [v] \<and> length [v] \<le> 1" by simp
    then show ?thesis by blast
  qed
  have 2: "writes (snd (on_init fs w)) = writes w \<longrightarrow> agent (snd (on_init fs w)) = agent w"
    using on_init_effect [of fs w] by auto
  note 3 = on_model_query_frame(4) [of messages iid w]
  note 4 = on_model_query_frame(3) [of messages iid w]
  note 5 = run_writes_ext [of cs w]
  have 6: "on_init_calls cs \<le> 1 \<longrightarrow> length (writes (snd (run cs w))) \<le> Suc (length (writes w))"
    using 5 by auto
  from 1 2 3 4 5 6 show ?thesis by blast
qed

text \<open>One call of each callback on the scenario: one assignment.\<close>

theorem override_applications_bounded_witness:
  "length (writes (snd (run [OnInit (fs_with (Loads scenario_doc)),
      OnModelQuery [()] (str ''task-42'')] scenario_world))) \<le> 1 \<and>
   writes (snd (run [OnInit (fs_with (Loads scenario_doc)),
      OnModelQuery [()] (str ''task-42'')] scenario_world)) = [str ''You are a careful reviewer.'']"
proof -
  have c: "on_init_calls [OnInit (fs_with (Loads scenario_doc)),
      OnModelQuery [()] (str ''task-42'')] \<le> 1" by simp
  note t = override_applications_bounded [where w = scenario_world
      and cs = "[OnInit (fs_with (Loads scenario_doc)), OnModelQuery [()] (str ''task-42'')]",
      THEN conjunct2, THEN conjunct2, THEN conjunct2, THEN conjunct2, THEN conjunct2,
      THEN mp, OF c]
  have v: "writes (snd (run [OnInit (fs_with (Loads scenario_doc)),
      OnModelQuery [()] (str ''task-42'')] scenario_world)) = [str ''You are a careful reviewer.'']"
    by (simp add: scenario_on_init on_model_query_def)
  from t v scenario_initial(3) show ?thesis by simp
qed

end
